theory Spec2Isabelle
  imports Complex_Main "HOL-Library.Multiset" "HOL-Library.Sublist" "HOL-Library.Word"
begin

section \<open>The sales dashboard script (src/app.py)\<close>

text \<open>
  The script loads \<^verbatim>\<open>sales_data.csv\<close> into a pandas DataFrame (\<^verbatim>\<open>load_data\<close>,
  lines 16-40), stops when the frame is empty (lines 46-47), filters it by region
  (lines 74-77) and computes the figures it shows: the KPIs (lines 89-92), the ranking
  with its first and last five rows (lines 114-117) and the support list (line 163).

  Modelling decisions, all of them about pandas, NumPy and Streamlit, which are libraries
  and not code of this repository:
  \<^item> a number held in a numeric column is a \<^typ>\<open>real\<close>: every finite double is a rational,
    and the order of finite doubles is the order of the reals. Rounding, infinities and
    missing values (NaN) are outside the model;
  \<^item> the column that the script adds up, \<^verbatim>\<open>Total_Sales\<close>, carries its dtype: a cell is a
    64-bit machine integer (int64, whose sums wrap around) or a float64;
  \<^item> \<^verbatim>\<open>astype(float)\<close>, the parser of a text into a double, is a parameter \<open>to_float\<close> of
    type \<^typ>\<open>string \<Rightarrow> real option\<close>, \<open>None\<close> where the library raises ValueError;
  \<^item> what \<^verbatim>\<open>pd.read_csv\<close> did is the input of the model: the exception it raised or the
    frame it returned.
\<close>

subsection \<open>Frames, column by column (what \<^verbatim>\<open>load_data\<close> works on)\<close>

text \<open>
  A column is a typed array: float64 or int64 (\<open>NumCol\<close>), bool (\<open>BoolCol\<close>), or dtype
  \<^verbatim>\<open>object\<close> (\<open>ObjCol\<close>), which is what \<^verbatim>\<open>read_csv\<close> of pandas 1 and 2 gives a column
  that holds text; its cells are the texts of the file. A frame is the list of its labelled
  columns, in the order of the file.
\<close>

datatype column = NumCol "real list" | BoolCol "bool list" | ObjCol "string list"

type_synonym frame = "(string \<times> column) list"

datatype exn =
    FileNotFoundError | PermissionError | IsADirectoryError | EmptyDataError
  | ParserError | UnicodeDecodeError | ValueError | AttributeError

fun col_len :: "column \<Rightarrow> nat" where
  "col_len (NumCol xs) = length xs"
| "col_len (BoolCol xs) = length xs"
| "col_len (ObjCol xs) = length xs"

definition columns :: "frame \<Rightarrow> string list" where
  "columns df = map fst df"

text \<open>The number of rows is the length of the columns (all columns of a frame have one length).\<close>

definition nrows :: "frame \<Rightarrow> nat" where
  "nrows df = (case df of [] \<Rightarrow> 0 | (_, c) # _ \<Rightarrow> col_len c)"

text \<open>\<^verbatim>\<open>df.empty\<close>: one of the two axes has length 0.\<close>

definition df_empty :: "frame \<Rightarrow> bool" where
  "df_empty df \<longleftrightarrow> df = [] \<or> nrows df = 0"

text \<open>\<^verbatim>\<open>df[col].dtype == 'object'\<close> on one column.\<close>

fun dtype_is_object :: "column \<Rightarrow> bool" where
  "dtype_is_object (ObjCol _) = True"
| "dtype_is_object _ = False"

subsection \<open>Renaming the columns (lines 26-32)\<close>

text \<open>The dictionary handed to \<^verbatim>\<open>df.rename(columns=...)\<close>.\<close>

definition rename_map :: "(string \<times> string) list" where
  "rename_map =
    [(''Emp Code'', ''Emp_Code''),
     (''Sales Executive'', ''Sales_Executive''),
     (''Total Sales'', ''Total_Sales''),
     (''Target Hit %'', ''Target_Hit_Pct''),
     (''Away From Target %'', ''Away_From_Target_Pct'')]"

text \<open>\<^verbatim>\<open>rename\<close> replaces a label that is a key of the dictionary and keeps every other one.\<close>

definition rename_label :: "string \<Rightarrow> string" where
  "rename_label c = (case map_of rename_map c of Some c' \<Rightarrow> c' | None \<Rightarrow> c)"

definition rename :: "frame \<Rightarrow> frame" where
  "rename df = map (\<lambda>(c, xs). (rename_label c, xs)) df"

subsection \<open>Percentage texts to ratios (lines 35-38)\<close>

text \<open>\<^verbatim>\<open>s.replace('%', '')\<close>: every occurrence of the character is removed.\<close>

definition str_replace_percent :: "string \<Rightarrow> string" where
  "str_replace_percent s = filter (\<lambda>c. c \<noteq> CHR ''%'') s"

text \<open>\<^verbatim>\<open>astype(float)\<close> on a column of texts: ValueError as soon as one text is no number.\<close>

definition astype_float :: "(string \<Rightarrow> real option) \<Rightarrow> string list \<Rightarrow> exn + real list" where
  "astype_float to_float xs =
     (case those (map to_float xs) of None \<Rightarrow> Inl ValueError | Some ys \<Rightarrow> Inr ys)"

text \<open>The right-hand side of line 38.\<close>

definition percent_to_ratio :: "(string \<Rightarrow> real option) \<Rightarrow> string list \<Rightarrow> exn + real list" where
  "percent_to_ratio to_float xs =
     (case astype_float to_float (map str_replace_percent xs) of
        Inl e \<Rightarrow> Inl e
      | Inr ys \<Rightarrow> Inr (map (\<lambda>y. y / 100) ys))"

text \<open>
  \<^verbatim>\<open>df[col]\<close> is a Series when one column has the label. When several have it (the file
  had both the spaced and the underscore header) it is a DataFrame, which has no
  attribute \<^verbatim>\<open>dtype\<close>: line 36 raises AttributeError.
\<close>

definition getitem :: "frame \<Rightarrow> string \<Rightarrow> column list" where
  "getitem df col = map snd (filter (\<lambda>(c, xs). c = col) df)"

text \<open>\<^verbatim>\<open>df[col] = values\<close> for a label the frame has: the column's data is replaced in place.\<close>

definition setitem :: "frame \<Rightarrow> string \<Rightarrow> column \<Rightarrow> frame" where
  "setitem df col new = map (\<lambda>(c, xs). if c = col then (c, new) else (c, xs)) df"

text \<open>One pass of the loop body, lines 36-38.\<close>

definition convert_column :: "(string \<Rightarrow> real option) \<Rightarrow> string \<Rightarrow> frame \<Rightarrow> exn + frame" where
  "convert_column to_float col df =
     (if col \<in> set (columns df) then
        (case getitem df col of
           [ObjCol xs] \<Rightarrow>
             (case percent_to_ratio to_float xs of
                Inl e \<Rightarrow> Inl e
              | Inr ys \<Rightarrow> Inr (setitem df col (NumCol ys)))
         | [_] \<Rightarrow> Inr df
         | _ \<Rightarrow> Inl AttributeError)
      else Inr df)"

text \<open>The loop of line 35 over the list of the two labels.\<close>

fun convert_loop :: "(string \<Rightarrow> real option) \<Rightarrow> string list \<Rightarrow> frame \<Rightarrow> exn + frame" where
  "convert_loop to_float [] df = Inr df"
| "convert_loop to_float (col # cols) df =
     (case convert_column to_float col df of
        Inl e \<Rightarrow> Inl e
      | Inr df' \<Rightarrow> convert_loop to_float cols df')"

definition pct_columns :: "string list" where
  "pct_columns = [''Target_Hit_Pct'', ''Away_From_Target_Pct'']"

subsection \<open>\<^verbatim>\<open>load_data\<close> (lines 16-40) and the guard after it (lines 43-47)\<close>

definition not_found_message :: string where
  "not_found_message =
     ''Error: 'sales_data.csv' not found. Please ensure the data file is committed to your GitHub repository.''"

text \<open>
  The argument \<open>csv\<close> is what \<^verbatim>\<open>pd.read_csv('sales_data.csv')\<close> did. The result is the list
  of the messages shown with \<^verbatim>\<open>st.error\<close>, and the frame returned or the exception that
  leaves the function. Only FileNotFoundError is caught (line 20).
\<close>

definition load_data :: "(string \<Rightarrow> real option) \<Rightarrow> exn + frame \<Rightarrow> string list \<times> (exn + frame)" where
  "load_data to_float csv =
     (case csv of
        Inl e \<Rightarrow> (if e = FileNotFoundError then ([not_found_message], Inr []) else ([], Inl e))
      | Inr df \<Rightarrow> ([], convert_loop to_float pct_columns (rename df)))"

text \<open>
  How the script goes on after line 43: the exception of \<^verbatim>\<open>load_data\<close> ends the run,
  \<^verbatim>\<open>st.stop()\<close> ends it on an empty frame, and otherwise the rest of the script (the
  filter, the aggregates and every chart and table) runs on the frame.
\<close>

datatype run = Uncaught exn | Stopped | Continues frame

definition script_start :: "(string \<Rightarrow> real option) \<Rightarrow> exn + frame \<Rightarrow> string list \<times> run" where
  "script_start to_float csv =
     (case load_data to_float csv of
        (msgs, Inl e) \<Rightarrow> (msgs, Uncaught e)
      | (msgs, Inr df) \<Rightarrow> (msgs, if df_empty df then Stopped else Continues df))"

subsection \<open>The part of the script after the guard, row by row\<close>

text \<open>
  The rest of the script reads the frame by rows. A row holds the index label that
  \<^verbatim>\<open>read_csv\<close> gave it (its position in the file; a selection keeps the labels of the rows
  it keeps) and the seven columns the script uses, with the types of the Sales Record of
  the specification: texts for the code, the name and the region, numbers for the rest.

  A cell of \<^verbatim>\<open>Total_Sales\<close> is an int64 or a float64, as \<^verbatim>\<open>read_csv\<close> made the column:
  int64 when every cell of the file is a whole number, float64 otherwise. A column has
  one dtype, so the cells of one table are all of one kind. \<open>number_value\<close> is the number
  a cell stands for, the signed reading of the 64 bits of an int64.
\<close>

datatype number = Int64 "64 word" | Float64 real

fun number_value :: "number \<Rightarrow> real" where
  "number_value (Int64 w) = real_of_int (sint w)"
| "number_value (Float64 x) = x"

text \<open>
  NumPy's addition of two scalars: two int64 add up to an int64, modulo \<open>2 ^ 64\<close>; with a
  float64 on either side the sum is a float64.
\<close>

fun add_number :: "number \<Rightarrow> number \<Rightarrow> number" where
  "add_number (Int64 a) (Int64 b) = Int64 (a + b)"
| "add_number a b = Float64 (number_value a + number_value b)"

text \<open>
  \<^verbatim>\<open>Series.sum()\<close>: the cells are added up from 0. On an int64 column the sum is an int64
  and wraps around; on a float64 column it is a float64.
\<close>

definition series_sum :: "number list \<Rightarrow> number" where
  "series_sum xs = foldl add_number (Int64 0) xs"

record sales_row =
  idx :: nat
  Emp_Code :: string
  Sales_Executive :: string
  Region :: string
  Total_Sales :: number
  Target :: real
  Target_Hit_Pct :: real
  Away_From_Target_Pct :: real

type_synonym table = "sales_row list"

text \<open>
  \<^verbatim>\<open>df['Region'].isin(selected_states)\<close> on one row. The selection of the multi-select
  (lines 55-59) is a list of texts, whatever the user chose among the sentinel and the
  regions of the frame.
\<close>

definition isin :: "string list \<Rightarrow> sales_row \<Rightarrow> bool" where
  "isin selected_states r \<longleftrightarrow> Region r \<in> set selected_states"

text \<open>Lines 74-77. A boolean mask keeps the selected rows in their order.\<close>

definition df_filtered :: "string list \<Rightarrow> table \<Rightarrow> table" where
  "df_filtered selected_states df =
     (if ''All Regions'' \<notin> set selected_states then filter (isin selected_states) df else df)"

text \<open>
  Lines 89, 91 and 92: the KPIs that are no mean. \<open>total_sales\<close> is the number that
  the sum of the column stands for, which is what line 96 formats.
\<close>

definition total_sales :: "table \<Rightarrow> real" where
  "total_sales dff = number_value (series_sum (map Total_Sales dff))"

definition total_salesmen :: "table \<Rightarrow> nat" where
  "total_salesmen dff = length (remdups (map Emp_Code dff))"

definition target_achieved_count :: "table \<Rightarrow> nat" where
  "target_achieved_count dff = length (filter (\<lambda>r. Target_Hit_Pct r \<ge> 1.0) dff)"

text \<open>
  \<^verbatim>\<open>sort_values(by=..., ascending=...)\<close>. pandas sorts with NumPy's quicksort, which fixes
  no order among rows of equal key; the model is the stable sort, and no statement below
  depends on the order of equal keys.
\<close>

definition sort_values :: "(sales_row \<Rightarrow> real) \<Rightarrow> bool \<Rightarrow> table \<Rightarrow> table" where
  "sort_values by ascending dff =
     (if ascending then sort_key by dff else sort_key (\<lambda>r. - by r) dff)"

text \<open>\<^verbatim>\<open>head(n)\<close> and \<^verbatim>\<open>tail(n)\<close>: the first and the last n rows, all rows when there are fewer.\<close>

definition head :: "nat \<Rightarrow> table \<Rightarrow> table" where
  "head n dff = take n dff"

definition tail :: "nat \<Rightarrow> table \<Rightarrow> table" where
  "tail n dff = drop (length dff - n) dff"

text \<open>Lines 114-117. The rows are ordered by the numbers their cells stand for.\<close>

definition salesmen_rank :: "table \<Rightarrow> table" where
  "salesmen_rank dff = sort_values (\<lambda>r. number_value (Total_Sales r)) False dff"

definition top_5 :: "table \<Rightarrow> table" where
  "top_5 dff = head 5 (salesmen_rank dff)"

definition bottom_5 :: "table \<Rightarrow> table" where
  "bottom_5 dff = tail 5 (salesmen_rank dff)"

text \<open>Line 163.\<close>

definition df_support :: "real \<Rightarrow> table \<Rightarrow> table" where
  "df_support target_threshold dff =
     sort_values Target_Hit_Pct True (filter (\<lambda>r. Target_Hit_Pct r < target_threshold) dff)"

subsection \<open>Definitions that follow the specification's words\<close>

text \<open>
  The specification's step 3 strips one trailing percent sign from a value, where the
  code removes every percent sign. This is the specification's procedure, to be compared
  with \<^const>\<open>str_replace_percent\<close> and \<^const>\<open>percent_to_ratio\<close>.
\<close>

definition spec_strip_trailing_percent :: "string \<Rightarrow> string" where
  "spec_strip_trailing_percent s =
     (if s \<noteq> [] \<and> last s = CHR ''%'' then butlast s else s)"

definition spec_percent_to_ratio :: "(string \<Rightarrow> real option) \<Rightarrow> string list \<Rightarrow> exn + real list" where
  "spec_percent_to_ratio to_float xs =
     (case astype_float to_float (map spec_strip_trailing_percent xs) of
        Inl e \<Rightarrow> Inl e
      | Inr ys \<Rightarrow> Inr (map (\<lambda>y. y / 100) ys))"

subsection \<open>A parser for the examples\<close>

text \<open>
  Python's \<^verbatim>\<open>float\<close> on the texts that are one or more decimal digits, then optionally a
  point and one or more decimal digits; \<open>None\<close> on every other text. It stands for
  \<open>to_float\<close> in the examples, all of whose texts either have this form or contain a
  percent sign, which Python's \<^verbatim>\<open>float\<close> rejects too.
\<close>

definition digit_of :: "char \<Rightarrow> nat option" where
  "digit_of c =
     map_of [(CHR ''0'', 0), (CHR ''1'', 1), (CHR ''2'', 2), (CHR ''3'', 3), (CHR ''4'', 4),
             (CHR ''5'', 5), (CHR ''6'', 6), (CHR ''7'', 7), (CHR ''8'', 8), (CHR ''9'', 9)] c"

fun digits_value :: "nat \<Rightarrow> string \<Rightarrow> nat option" where
  "digits_value acc [] = Some acc"
| "digits_value acc (c # cs) =
     (case digit_of c of None \<Rightarrow> None | Some d \<Rightarrow> digits_value (10 * acc + d) cs)"

definition decimal_float :: "string \<Rightarrow> real option" where
  "decimal_float s =
     (let ip = takeWhile (\<lambda>c. c \<noteq> CHR ''.'') s; rest = dropWhile (\<lambda>c. c \<noteq> CHR ''.'') s in
      if ip = [] then None
      else
        (case digits_value 0 ip of
           None \<Rightarrow> None
         | Some i \<Rightarrow>
             (case rest of
                [] \<Rightarrow> Some (real i)
              | _ # fp \<Rightarrow>
                  (if fp = [] then None
                   else
                     (case digits_value 0 fp of
                        None \<Rightarrow> None
                      | Some f \<Rightarrow> Some (real i + real f / 10 ^ length fp))))))"

subsection \<open>What the loop did to one column\<close>

text \<open>
  \<open>converted to_float c c'\<close>: \<open>c'\<close> is what lines 36-38 make of the column \<open>c\<close>. A column of
  dtype \<^verbatim>\<open>object\<close> becomes the numeric column of its ratios, any other column stays.
\<close>

definition converted :: "(string \<Rightarrow> real option) \<Rightarrow> column \<Rightarrow> column \<Rightarrow> bool" where
  "converted to_float c c' \<longleftrightarrow>
     (case c of
        ObjCol xs \<Rightarrow>
          (case percent_to_ratio to_float xs of Inl e \<Rightarrow> False | Inr ys \<Rightarrow> c' = NumCol ys)
      | _ \<Rightarrow> c' = c)"

subsection \<open>Example inputs\<close>

text \<open>
  A file of two rows whose hit percentage is text and whose shortfall is already numeric,
  and the frame \<^verbatim>\<open>load_data\<close> makes of it.
\<close>

definition example_csv :: frame where
  "example_csv =
     [(''Emp Code'', ObjCol [''E1'', ''E2'']),
      (''Region'', ObjCol [''North'', ''South'']),
      (''Total Sales'', NumCol [1000, 3000]),
      (''Target Hit %'', ObjCol [''50.00%'', ''120%'']),
      (''Away From Target %'', NumCol [1/2, 0])]"

definition example_loaded :: frame where
  "example_loaded =
     [(''Emp_Code'', ObjCol [''E1'', ''E2'']),
      (''Region'', ObjCol [''North'', ''South'']),
      (''Total_Sales'', NumCol [1000, 3000]),
      (''Target_Hit_Pct'', NumCol [1/2, 6/5]),
      (''Away_From_Target_Pct'', NumCol [1/2, 0])]"

text \<open>
  Rows for the examples: label, employee, region, sales and hit ratio, with the sales in
  a float64 column (\<open>mk_row\<close>) or in an int64 column (\<open>mk_int64_row\<close>).
\<close>

definition mk_row :: "nat \<Rightarrow> string \<Rightarrow> string \<Rightarrow> real \<Rightarrow> real \<Rightarrow> sales_row" where
  "mk_row i e reg s h =
     \<lparr>idx = i, Emp_Code = e, Sales_Executive = e, Region = reg, Total_Sales = Float64 s,
      Target = 1000, Target_Hit_Pct = h, Away_From_Target_Pct = 1 - h\<rparr>"

definition mk_int64_row :: "nat \<Rightarrow> string \<Rightarrow> string \<Rightarrow> 64 word \<Rightarrow> real \<Rightarrow> sales_row" where
  "mk_int64_row i e reg s h =
     \<lparr>idx = i, Emp_Code = e, Sales_Executive = e, Region = reg, Total_Sales = Int64 s,
      Target = 1000, Target_Hit_Pct = h, Away_From_Target_Pct = 1 - h\<rparr>"

definition example_table :: table where
  "example_table =
     [mk_row 0 ''E1'' ''North'' 1000 (1/2),
      mk_row 1 ''E2'' ''South'' 3000 (6/5),
      mk_row 2 ''E1'' ''North'' 400 (2/5),
      mk_row 3 ''E3'' ''East'' 1000 1]"



text \<open>Ten rows of pairwise different sales.\<close>

definition example_ten :: table where
  "example_ten =
     [mk_row 0 ''E0'' ''North'' 0 0,
      mk_row 1 ''E1'' ''North'' 700 (7/10),
      mk_row 2 ''E2'' ''South'' 300 (3/10),
      mk_row 3 ''E3'' ''South'' 1000 1,
      mk_row 4 ''E4'' ''East'' 600 (3/5),
      mk_row 5 ''E5'' ''East'' 200 (1/5),
      mk_row 6 ''E6'' ''West'' 900 (9/10),
      mk_row 7 ''E7'' ''West'' 500 (1/2),
      mk_row 8 ''E8'' ''North'' 100 (1/10),
      mk_row 9 ''E9'' ''South'' 800 (4/5)]"

section \<open>Properties of \<^verbatim>\<open>load_data\<close>\<close>

subsection \<open>Auxiliary facts\<close>


lemma rename_label_cases:
  "rename_label c =
     (if c = ''Emp Code'' then ''Emp_Code''
      else if c = ''Sales Executive'' then ''Sales_Executive''
      else if c = ''Total Sales'' then ''Total_Sales''
      else if c = ''Target Hit %'' then ''Target_Hit_Pct''
      else if c = ''Away From Target %'' then ''Away_From_Target_Pct''
      else c)"
  by (simp add: rename_label_def rename_map_def)

lemma rename_label_idem: "rename_label (rename_label c) = rename_label c"
  by (simp add: rename_label_cases)

lemma those_map_Some: "those (map f xs) = Some ys \<longleftrightarrow> map f xs = map Some ys"
proof (induction xs arbitrary: ys)
  case Nil
  show ?case by auto
next
  case (Cons x xs)
  show ?case
  proof (cases "f x")
    case None
    then show ?thesis by (cases ys) auto
  next
    case (Some y)
    show ?thesis
    proof (cases "those (map f xs)")
      case None
      with Some Cons[of "tl ys"] show ?thesis by (cases ys) auto
    next
      case (Some zs)
      with \<open>f x = Some y\<close> Cons show ?thesis by (cases ys) auto
    qed
  qed
qed

lemma percent_to_ratio_Inr:
  "percent_to_ratio to_float xs = Inr ys \<longleftrightarrow>
     map Some ys = map (\<lambda>x. map_option (\<lambda>y. y / 100) (to_float (str_replace_percent x))) xs"
proof -
  let ?g = "\<lambda>x. to_float (str_replace_percent x)"
  have a: "percent_to_ratio to_float xs = Inr ys \<longleftrightarrow>
             (\<exists>zs. map ?g xs = map Some zs \<and> ys = map (\<lambda>y. y / 100) zs)"
  proof (cases "those (map to_float (map str_replace_percent xs))")
    case None
    then have "\<not> (\<exists>zs. map ?g xs = map Some zs)"
      using those_map_Some[of ?g xs] by (simp add: comp_def)
    with None show ?thesis
      by (auto simp: percent_to_ratio_def astype_float_def)
  next
    case (Some zs)
    then have "map ?g xs = map Some zs"
      using those_map_Some[of ?g xs zs] by (simp add: comp_def)
    with Some show ?thesis
      by (auto simp: percent_to_ratio_def astype_float_def)
  qed
  have b: "(\<exists>zs. map ?g xs = map Some zs \<and> ys = map (\<lambda>y. y / 100) zs) \<longleftrightarrow>
             map Some ys = map (\<lambda>x. map_option (\<lambda>y. y / 100) (?g x)) xs"
  proof (induction xs arbitrary: ys)
    case Nil
    show ?case by auto
  next
    case (Cons x xs)
    show ?case
    proof (cases ys)
      case Nil
      then show ?thesis by auto
    next
      case (Cons y ys')
      have "(\<exists>zs. map ?g (x # xs) = map Some zs \<and> y # ys' = map (\<lambda>y. y / 100) zs) \<longleftrightarrow>
              (\<exists>z zs'. ?g x = Some z \<and> y = z / 100 \<and> map ?g xs = map Some zs' \<and>
                 ys' = map (\<lambda>y. y / 100) zs')"
        by (auto simp: map_eq_Cons_conv Cons_eq_map_conv)
      also have "\<dots> \<longleftrightarrow> (\<exists>z. ?g x = Some z \<and> y = z / 100) \<and>
              (\<exists>zs'. map ?g xs = map Some zs' \<and> ys' = map (\<lambda>y. y / 100) zs')"
        by blast
      also have "\<dots> \<longleftrightarrow> Some y = map_option (\<lambda>y. y / 100) (?g x) \<and>
              map Some ys' = map (\<lambda>x. map_option (\<lambda>y. y / 100) (?g x)) xs"
        using Cons.IH[of ys'] by (cases "?g x") auto
      finally show ?thesis using Cons by simp
    qed
  qed
  from a b show ?thesis by simp
qed

lemma setitem_shape: "map fst (setitem df col new) = map fst df"
  by (induction df) (auto simp: setitem_def)

lemma setitem_nth:
  "i < length df \<Longrightarrow>
     setitem df col new ! i = (if fst (df ! i) = col then (col, new) else df ! i)"
  by (auto simp: setitem_def split: prod.splits)

lemma getitem_single:
  "getitem df col = [c] \<Longrightarrow> i < length df \<Longrightarrow> fst (df ! i) = col \<Longrightarrow> snd (df ! i) = c"
proof -
  assume g: "getitem df col = [c]" and i: "i < length df" and l: "fst (df ! i) = col"
  from i l have "df ! i \<in> set (filter (\<lambda>(c, xs). c = col) df)"
    by (auto simp: case_prod_beta)
  then have "snd (df ! i) \<in> set (getitem df col)"
    unfolding getitem_def by (metis image_eqI set_map)
  with g show ?thesis by simp
qed

lemma getitem_Nil: "getitem df col = [] \<longleftrightarrow> col \<notin> set (columns df)"
  by (force simp: getitem_def columns_def filter_empty_conv)

lemma convert_column_Inr:
  "convert_column to_float col df = Inr df' \<longleftrightarrow>
     (col \<notin> set (columns df) \<and> df' = df) \<or>
     (\<exists>c. getitem df col = [c] \<and>
        (case c of
           ObjCol xs \<Rightarrow> \<exists>ys. percent_to_ratio to_float xs = Inr ys \<and> df' = setitem df col (NumCol ys)
         | _ \<Rightarrow> df' = df))"
proof (cases "col \<in> set (columns df)")
  case False
  then show ?thesis using getitem_Nil[of df col] by (auto simp: convert_column_def)
next
  case True
  then have ne: "getitem df col \<noteq> []" by (simp add: getitem_Nil)
  show ?thesis
  proof (cases "getitem df col")
    case Nil
    with ne show ?thesis by simp
  next
    case (Cons c cs)
    show ?thesis
    proof (cases cs)
      case Nil
      with Cons True show ?thesis
        by (cases c) (auto simp: convert_column_def split: sum.splits)
    next
      case (Cons c' cs')
      with \<open>getitem df col = c # cs\<close> True show ?thesis
        by (cases c) (auto simp: convert_column_def)
    qed
  qed
qed


lemma convert_column_result:
  assumes "convert_column to_float col df = Inr df'"
  shows "df' = df \<or> (\<exists>ys. df' = setitem df col (NumCol ys))"
proof -
  from assms consider "df' = df"
    | c where "case c of
           ObjCol xs \<Rightarrow> \<exists>ys. percent_to_ratio to_float xs = Inr ys \<and> df' = setitem df col (NumCol ys)
         | _ \<Rightarrow> df' = df"
    unfolding convert_column_Inr by blast
  then show ?thesis
  proof cases
    case 1
    then show ?thesis by simp
  next
    case 2
    then show ?thesis by (cases c) auto
  qed
qed

lemma convert_column_length:
  "convert_column to_float col df = Inr df' \<Longrightarrow> map fst df' = map fst df"
  using convert_column_result[of to_float col df df'] by (auto simp: setitem_shape)

lemma convert_column_other:
  assumes "convert_column to_float col df = Inr df'" "i < length df" "fst (df ! i) \<noteq> col"
  shows "df' ! i = df ! i"
  using convert_column_result[OF assms(1)] assms(2,3) by (auto simp: setitem_nth)

lemma convert_column_this:
  assumes "convert_column to_float col df = Inr df'" "i < length df" "fst (df ! i) = col"
  shows "converted to_float (snd (df ! i)) (snd (df' ! i))"
proof -
  from assms(2,3) have "col \<in> set (columns df)"
    by (auto simp: columns_def)
  with assms(1) obtain c where g: "getitem df col = [c]"
    and d: "case c of
           ObjCol xs \<Rightarrow> \<exists>ys. percent_to_ratio to_float xs = Inr ys \<and> df' = setitem df col (NumCol ys)
         | _ \<Rightarrow> df' = df"
    by (auto simp: convert_column_Inr)
  from getitem_single[OF g assms(2,3)] have c: "snd (df ! i) = c" .
  show ?thesis using d c assms(2,3)
    by (cases c) (auto simp: converted_def setitem_nth)
qed

lemma load_data_Inr:
  "load_data to_float (Inr raw) = (msgs, Inr df) \<longleftrightarrow>
     msgs = [] \<and>
     (\<exists>df1. convert_column to_float ''Target_Hit_Pct'' (rename raw) = Inr df1 \<and>
            convert_column to_float ''Away_From_Target_Pct'' df1 = Inr df)"
  by (auto simp: load_data_def pct_columns_def split: sum.splits)

lemma rename_nth: "i < length raw \<Longrightarrow> rename raw ! i = (rename_label (fst (raw ! i)), snd (raw ! i))"
  by (simp add: rename_def case_prod_beta)

lemma load_data_nth:
  assumes "load_data to_float (Inr raw) = (msgs, Inr df)" and "i < length raw"
  shows "fst (df ! i) = rename_label (fst (raw ! i))"
    and "rename_label (fst (raw ! i)) \<in> set pct_columns \<Longrightarrow>
           converted to_float (snd (raw ! i)) (snd (df ! i))"
    and "rename_label (fst (raw ! i)) \<notin> set pct_columns \<Longrightarrow> snd (df ! i) = snd (raw ! i)"
proof -
  from assms(1) obtain df1 where
    c1: "convert_column to_float ''Target_Hit_Pct'' (rename raw) = Inr df1" and
    c2: "convert_column to_float ''Away_From_Target_Pct'' df1 = Inr df"
    by (auto simp: load_data_Inr)
  have l0: "length (rename raw) = length raw" by (simp add: rename_def)
  from convert_column_length[OF c1] have f1: "map fst df1 = map fst (rename raw)" .
  then have l1: "length df1 = length raw" using l0 by (metis length_map)
  from convert_column_length[OF c2] have f2: "map fst df = map fst df1" .
  then have l2: "length df = length raw" using l1 by (metis length_map)
  have n1: "fst (df1 ! i) = rename_label (fst (raw ! i))"
    using f1 assms(2) l0 l1 rename_nth[OF assms(2)] by (metis fst_conv nth_map)
  show n2: "fst (df ! i) = rename_label (fst (raw ! i))"
    using f2 n1 assms(2) l1 l2 by (metis nth_map)
  let ?l = "rename_label (fst (raw ! i))"
  have i0: "i < length (rename raw)" and i1: "i < length df1"
    using assms(2) l0 l1 by simp_all
  have r: "fst (rename raw ! i) = ?l" "snd (rename raw ! i) = snd (raw ! i)"
    using rename_nth[OF assms(2)] by simp_all
  {
    assume p: "?l \<in> set pct_columns"
    show "converted to_float (snd (raw ! i)) (snd (df ! i))"
    proof (cases "?l = ''Target_Hit_Pct''")
      case True
      from convert_column_this[OF c1 i0] True r
      have a: "converted to_float (snd (raw ! i)) (snd (df1 ! i))" by simp
      from True n1 have "fst (df1 ! i) \<noteq> ''Away_From_Target_Pct''" by simp
      from convert_column_other[OF c2 i1 this] a show ?thesis by simp
    next
      case False
      with p have q: "?l = ''Away_From_Target_Pct''" by (simp add: pct_columns_def)
      from False r have "fst (rename raw ! i) \<noteq> ''Target_Hit_Pct''" by simp
      from convert_column_other[OF c1 i0 this] r
      have a: "snd (df1 ! i) = snd (raw ! i)" by simp
      from q n1 have "fst (df1 ! i) = ''Away_From_Target_Pct''" by simp
      from convert_column_this[OF c2 i1 this] a show ?thesis by simp
    qed
  }
  {
    assume p: "?l \<notin> set pct_columns"
    then have a: "fst (rename raw ! i) \<noteq> ''Target_Hit_Pct''"
      and b: "fst (df1 ! i) \<noteq> ''Away_From_Target_Pct''"
      using r n1 by (auto simp: pct_columns_def)
    from convert_column_other[OF c1 i0 a] convert_column_other[OF c2 i1 b] r
    show "snd (df ! i) = snd (raw ! i)" by simp
  }
qed

lemma load_data_length:
  assumes "load_data to_float (Inr raw) = (msgs, Inr df)"
  shows "length df = length raw"
proof -
  from assms obtain df1 where
    c1: "convert_column to_float ''Target_Hit_Pct'' (rename raw) = Inr df1" and
    c2: "convert_column to_float ''Away_From_Target_Pct'' df1 = Inr df"
    by (auto simp: load_data_Inr)
  from convert_column_length[OF c1] convert_column_length[OF c2]
  have "map fst df = map fst (rename raw)" by simp
  then have "length df = length (rename raw)" by (metis length_map)
  then show ?thesis by (simp add: rename_def)
qed

lemma converted_ObjCol:
  "converted to_float (ObjCol xs) c' \<longleftrightarrow>
     (\<exists>ys. c' = NumCol ys \<and>
        map Some ys = map (\<lambda>x. map_option (\<lambda>y. y / 100) (to_float (str_replace_percent x))) xs)"
proof (cases "percent_to_ratio to_float xs")
  case (Inl e)
  then have "\<And>ys. percent_to_ratio to_float xs \<noteq> Inr ys" by simp
  then have "\<And>ys. map Some ys \<noteq>
      map (\<lambda>x. map_option (\<lambda>y. y / 100) (to_float (str_replace_percent x))) xs"
    unfolding percent_to_ratio_Inr .
  then show ?thesis using Inl by (simp add: converted_def)
next
  case (Inr ys)
  then have "\<And>zs. percent_to_ratio to_float xs = Inr zs \<longleftrightarrow> zs = ys" by auto
  then have "\<And>zs. map Some zs =
      map (\<lambda>x. map_option (\<lambda>y. y / 100) (to_float (str_replace_percent x))) xs \<longleftrightarrow> zs = ys"
    unfolding percent_to_ratio_Inr .
  then show ?thesis using Inr by (auto simp: converted_def)
qed

lemma converted_not_object: "\<not> dtype_is_object c \<Longrightarrow> converted to_float c c' \<longleftrightarrow> c' = c"
  by (cases c) (simp_all add: converted_def)

lemma converted_col_len: "converted to_float c c' \<Longrightarrow> col_len c' = col_len c"
proof (cases c)
  case (ObjCol xs)
  assume "converted to_float c c'"
  with ObjCol obtain ys where "c' = NumCol ys" and
    "map Some ys = map (\<lambda>x. map_option (\<lambda>y. y / 100) (to_float (str_replace_percent x))) xs"
    by (auto simp: converted_ObjCol)
  then have "c' = NumCol ys" and "length ys = length xs"
    by (simp, metis length_map)
  with ObjCol show ?thesis by simp
qed (simp_all add: converted_def)

lemma strip_agree:
  "CHR ''%'' \<notin> set (spec_strip_trailing_percent s) \<Longrightarrow>
     str_replace_percent s = spec_strip_trailing_percent s"
proof (cases "s \<noteq> [] \<and> last s = CHR ''%''")
  case True
  then have s: "s = butlast s @ ''%''" by (metis append_butlast_last_id)
  assume "CHR ''%'' \<notin> set (spec_strip_trailing_percent s)"
  with True have n: "CHR ''%'' \<notin> set (butlast s)" by (simp add: spec_strip_trailing_percent_def)
  have "str_replace_percent s = str_replace_percent (butlast s @ ''%'')" using s by simp
  also have "\<dots> = butlast s" using n by (auto simp: str_replace_percent_def filter_id_conv)
  finally show ?thesis using True by (simp add: spec_strip_trailing_percent_def)
next
  case False
  assume "CHR ''%'' \<notin> set (spec_strip_trailing_percent s)"
  with False show ?thesis
    by (auto simp: spec_strip_trailing_percent_def str_replace_percent_def filter_id_conv)
qed




text \<open>
  \<^verbatim>\<open>load_data\<close> does return a frame for a file that was read: it is enough that the
  labels are distinct after the renaming and that the texts of the percentage columns
  parse once their percent signs are removed.
\<close>

lemma getitem_distinct:
  assumes "distinct (columns df)" and "col \<in> set (columns df)"
  shows "\<exists>c. getitem df col = [c] \<and> (col, c) \<in> set df"
  using assms
proof (induction df)
  case Nil
  then show ?case by (simp add: columns_def)
next
  case (Cons a df)
  obtain l c where a: "a = (l, c)" by (cases a)
  show ?case
  proof (cases "l = col")
    case True
    with Cons.prems a have "col \<notin> set (columns df)" by (simp add: columns_def)
    then have "getitem df col = []" by (simp add: getitem_Nil)
    with True a show ?thesis by (simp add: getitem_def)
  next
    case False
    with Cons.prems a have "distinct (columns df)" "col \<in> set (columns df)"
      by (auto simp: columns_def)
    from Cons.IH[OF this] False a show ?thesis by (auto simp: getitem_def)
  qed
qed

lemma percent_to_ratio_returns:
  assumes "\<forall>x \<in> set xs. to_float (str_replace_percent x) \<noteq> None"
  shows "\<exists>ys. percent_to_ratio to_float xs = Inr ys"
proof -
  let ?ys = "map (\<lambda>x. the (to_float (str_replace_percent x)) / 100) xs"
  have "map Some ?ys =
      map (\<lambda>x. map_option (\<lambda>y. y / 100) (to_float (str_replace_percent x))) xs"
    using assms by (induction xs) auto
  then show ?thesis unfolding percent_to_ratio_Inr[symmetric] by blast
qed

lemma convert_column_returns:
  assumes "distinct (columns df)"
    and "\<And>xs. (col, ObjCol xs) \<in> set df \<Longrightarrow>
            \<forall>x \<in> set xs. to_float (str_replace_percent x) \<noteq> None"
  shows "\<exists>df'. convert_column to_float col df = Inr df'"
proof (cases "col \<in> set (columns df)")
  case False
  then show ?thesis by (simp add: convert_column_def)
next
  case True
  from getitem_distinct[OF assms(1) True] obtain c where
    g: "getitem df col = [c]" and m: "(col, c) \<in> set df" by blast
  show ?thesis
  proof (cases c)
    case (ObjCol xs)
    with m assms(2) have "\<forall>x \<in> set xs. to_float (str_replace_percent x) \<noteq> None" by blast
    from percent_to_ratio_returns[OF this] obtain ys where
      "percent_to_ratio to_float xs = Inr ys" by blast
    with g ObjCol True show ?thesis by (simp add: convert_column_def)
  qed (use g True in \<open>simp_all add: convert_column_def\<close>)
qed

lemma load_data_returns:
  assumes d: "distinct (map rename_label (columns raw))"
    and p: "\<And>c xs x. (c, ObjCol xs) \<in> set raw \<Longrightarrow> rename_label c \<in> set pct_columns \<Longrightarrow>
              x \<in> set xs \<Longrightarrow> to_float (str_replace_percent x) \<noteq> None"
  shows "\<exists>df. load_data to_float (Inr raw) = ([], Inr df)"
proof -
  have cr: "columns (rename raw) = map rename_label (columns raw)"
    by (induction raw) (auto simp: rename_def columns_def)
  have mem: "\<exists>c. (c, ObjCol xs) \<in> set raw \<and> rename_label c = l"
    if "(l, ObjCol xs) \<in> set (rename raw)" for l xs
    using that by (auto simp: rename_def)
  have d0: "distinct (columns (rename raw))" using d cr by simp
  have "\<exists>df1. convert_column to_float ''Target_Hit_Pct'' (rename raw) = Inr df1"
  proof (rule convert_column_returns[OF d0])
    fix xs assume "(''Target_Hit_Pct'', ObjCol xs) \<in> set (rename raw)"
    from mem[OF this] p show "\<forall>x \<in> set xs. to_float (str_replace_percent x) \<noteq> None"
      by (auto simp: pct_columns_def)
  qed
  then obtain df1 where c1: "convert_column to_float ''Target_Hit_Pct'' (rename raw) = Inr df1"
    by blast
  from convert_column_length[OF c1] have f1: "map fst df1 = map fst (rename raw)" .
  then have d1: "distinct (columns df1)" using d0 by (simp add: columns_def)
  from f1 have l1: "length df1 = length (rename raw)" by (metis length_map)
  have "\<exists>df. convert_column to_float ''Away_From_Target_Pct'' df1 = Inr df"
  proof (rule convert_column_returns[OF d1])
    fix xs assume "(''Away_From_Target_Pct'', ObjCol xs) \<in> set df1"
    then obtain i where i: "i < length df1" and e: "df1 ! i = (''Away_From_Target_Pct'', ObjCol xs)"
      by (auto simp: in_set_conv_nth)
    from f1 i l1 e have "fst (rename raw ! i) = ''Away_From_Target_Pct''"
      by (metis fst_conv nth_map)
    then have "fst (rename raw ! i) \<noteq> ''Target_Hit_Pct''" by simp
    from convert_column_other[OF c1 _ this] i l1 e
    have "rename raw ! i = (''Away_From_Target_Pct'', ObjCol xs)" by simp
    with i l1 have "(''Away_From_Target_Pct'', ObjCol xs) \<in> set (rename raw)"
      by (metis nth_mem)
    from mem[OF this] p show "\<forall>x \<in> set xs. to_float (str_replace_percent x) \<noteq> None"
      by (auto simp: pct_columns_def)
  qed
  then obtain df where "convert_column to_float ''Away_From_Target_Pct'' df1 = Inr df" by blast
  with c1 show ?thesis by (auto simp: load_data_Inr)
qed

subsection \<open>Evaluating the examples\<close>

lemmas load_defs = load_data_def pct_columns_def rename_def rename_label_def rename_map_def
  convert_column_def columns_def getitem_def percent_to_ratio_def astype_float_def
  str_replace_percent_def setitem_def decimal_float_def digit_of_def

lemma load_example: "load_data decimal_float (Inr example_csv) = ([], Inr example_loaded)"
  by (simp add: load_defs example_csv_def example_loaded_def)

subsection \<open>The claims about \<^verbatim>\<open>load_data\<close>\<close>

text \<open>
  C7. The renaming maps the five spaced headers to their underscore-joined counterparts
  and lets every other label through; the data of the columns is not touched. The
  specification writes the normalised names in lower case (\<open>emp_code\<close>, as it writes
  \<open>region\<close> for the column \<^verbatim>\<open>Region\<close> that passes through); the labels of the code are
  the capitalised ones below.
\<close>

theorem rename_five_headers:
  "rename_label ''Emp Code'' = ''Emp_Code'' \<and>
   rename_label ''Sales Executive'' = ''Sales_Executive'' \<and>
   rename_label ''Total Sales'' = ''Total_Sales'' \<and>
   rename_label ''Target Hit %'' = ''Target_Hit_Pct'' \<and>
   rename_label ''Away From Target %'' = ''Away_From_Target_Pct'' \<and>
   (\<forall>c. c \<notin> {''Emp Code'', ''Sales Executive'', ''Total Sales'', ''Target Hit %'',
               ''Away From Target %''} \<longrightarrow> rename_label c = c) \<and>
   columns (rename df) = map rename_label (columns df) \<and>
   map snd (rename df) = map snd df"
proof -
  have "columns (rename df) = map rename_label (columns df)"
    by (induction df) (auto simp: rename_def columns_def)
  moreover have "map snd (rename df) = map snd df"
    by (induction df) (auto simp: rename_def)
  ultimately show ?thesis by (simp add: rename_label_cases)
qed

theorem rename_five_headers_witness:
  "''Region'' \<notin> {''Emp Code'', ''Sales Executive'', ''Total Sales'', ''Target Hit %'',
               ''Away From Target %''} \<and>
   rename_label ''Region'' = ''Region'' \<and>
   columns (rename example_csv) =
     [''Emp_Code'', ''Region'', ''Total_Sales'', ''Target_Hit_Pct'', ''Away_From_Target_Pct'']"
  using rename_five_headers[of example_csv]
  by (simp add: example_csv_def columns_def)

text \<open>
  C9. Renaming is idempotent: no new label is a key of the dictionary, so a second
  renaming changes nothing, neither the labels nor the frame.
\<close>

theorem rename_idempotent:
  "rename (rename df) = rename df \<and>
   columns (rename (rename df)) = columns (rename df)"
proof -
  have "rename (rename df) = rename df"
    by (induction df) (auto simp: rename_def rename_label_idem)
  then show ?thesis by simp
qed

text \<open>
  C8. When \<^verbatim>\<open>load_data\<close> returns a frame for a file that was read, the frame has the
  columns of the file in their order, under the new labels, and as many rows; every
  column is either the very column of the file or, for a percentage column of texts, the
  column of the ratios of these texts, position by position. No row is dropped or moved.
  (When it returns one is the matter of \<open>load_data_returns\<close> above; a text that is no
  number, or a label that occurs twice after the renaming, ends \<^verbatim>\<open>load_data\<close> with
  an exception.)
\<close>

theorem load_data_preserves_rows:
  assumes "load_data to_float (Inr raw) = (msgs, Inr df)"
  shows "length df = length raw \<and>
         columns df = map rename_label (columns raw) \<and>
         nrows df = nrows raw \<and>
         (\<forall>i<length raw.
            col_len (snd (df ! i)) = col_len (snd (raw ! i)) \<and>
            (snd (df ! i) = snd (raw ! i) \<or>
             (\<exists>xs ys. fst (df ! i) \<in> set pct_columns \<and> snd (raw ! i) = ObjCol xs \<and>
                snd (df ! i) = NumCol ys \<and>
                map Some ys =
                  map (\<lambda>x. map_option (\<lambda>y. y / 100) (to_float (str_replace_percent x))) xs)))"
proof -
  have len: "length df = length raw" using assms by (rule load_data_length)
  have lab: "fst (df ! i) = rename_label (fst (raw ! i))" if "i < length raw" for i
    using load_data_nth(1)[OF assms that] .
  have cols: "columns df = map rename_label (columns raw)"
    unfolding columns_def by (rule nth_equalityI) (simp_all add: len lab)
  have conv: "converted to_float (snd (raw ! i)) (snd (df ! i)) \<or> snd (df ! i) = snd (raw ! i)"
    if "i < length raw" for i
    using load_data_nth(2,3)[OF assms that] by blast
  have cl: "col_len (snd (df ! i)) = col_len (snd (raw ! i))" if "i < length raw" for i
    using conv[OF that] converted_col_len by auto
  have nr: "nrows df = nrows raw"
  proof (cases raw)
    case Nil
    with len show ?thesis by simp
  next
    case (Cons a raw')
    with len obtain b df' where d: "df = b # df'" by (cases df) auto
    from cl[of 0] Cons d have "col_len (snd b) = col_len (snd a)" by simp
    with Cons d show ?thesis by (simp add: nrows_def case_prod_beta)
  qed
  have each: "snd (df ! i) = snd (raw ! i) \<or>
             (\<exists>xs ys. fst (df ! i) \<in> set pct_columns \<and> snd (raw ! i) = ObjCol xs \<and>
                snd (df ! i) = NumCol ys \<and>
                map Some ys =
                  map (\<lambda>x. map_option (\<lambda>y. y / 100) (to_float (str_replace_percent x))) xs)"
    if i: "i < length raw" for i
  proof (cases "rename_label (fst (raw ! i)) \<in> set pct_columns")
    case False
    then show ?thesis using load_data_nth(3)[OF assms i] by simp
  next
    case True
    have c: "converted to_float (snd (raw ! i)) (snd (df ! i))"
      using load_data_nth(2)[OF assms i True] .
    show ?thesis
    proof (cases "dtype_is_object (snd (raw ! i))")
      case False
      with c show ?thesis by (simp add: converted_not_object)
    next
      case obj: True
      then obtain xs where x: "snd (raw ! i) = ObjCol xs" by (cases "snd (raw ! i)") auto
      with c True lab[OF i] show ?thesis by (auto simp: converted_ObjCol)
    qed
  qed
  from len cols nr cl each show ?thesis by blast
qed

theorem load_data_preserves_rows_witness:
  "load_data decimal_float (Inr example_csv) = ([], Inr example_loaded) \<and>
   length example_loaded = length example_csv \<and>
   nrows example_loaded = nrows example_csv \<and> nrows example_csv = 2"
proof -
  have h: "load_data decimal_float (Inr example_csv) = ([], Inr example_loaded)"
    by (rule load_example)
  have n: "nrows example_csv = 2" by (simp add: nrows_def example_csv_def)
  from load_data_preserves_rows[OF h] h n show ?thesis by simp
qed




text \<open>
  C1 (as amended). In a frame that \<^verbatim>\<open>load_data\<close> returns, a percentage column that the
  file held as text is the numeric column of the ratios of its values: every percent sign of
  a value is removed, the rest is parsed and divided by 100. A percentage column of any
  other dtype is left as it is. Removing every percent sign is stripping one trailing
  percent sign for each value that has no other percent sign.
\<close>

theorem load_data_percent_columns:
  assumes "load_data to_float (Inr raw) = (msgs, Inr df)"
    and "i < length raw"
    and "rename_label (fst (raw ! i)) \<in> set pct_columns"
  shows "(\<forall>xs. snd (raw ! i) = ObjCol xs \<longrightarrow>
            (\<exists>ys. snd (df ! i) = NumCol ys \<and>
               map Some ys =
                 map (\<lambda>x. map_option (\<lambda>y. y / 100) (to_float (str_replace_percent x))) xs)) \<and>
         (\<not> dtype_is_object (snd (raw ! i)) \<longrightarrow> snd (df ! i) = snd (raw ! i)) \<and>
         (\<forall>x. CHR ''%'' \<notin> set (spec_strip_trailing_percent x) \<longrightarrow>
            str_replace_percent x = spec_strip_trailing_percent x)"
proof -
  have c: "converted to_float (snd (raw ! i)) (snd (df ! i))"
    using load_data_nth(2)[OF assms] .
  have a: "\<exists>ys. snd (df ! i) = NumCol ys \<and>
               map Some ys =
                 map (\<lambda>x. map_option (\<lambda>y. y / 100) (to_float (str_replace_percent x))) xs"
    if "snd (raw ! i) = ObjCol xs" for xs
    using c that by (simp add: converted_ObjCol)
  have b: "snd (df ! i) = snd (raw ! i)" if "\<not> dtype_is_object (snd (raw ! i))"
    using c that by (simp add: converted_not_object)
  from a b strip_agree show ?thesis by simp
qed

theorem load_data_percent_columns_witness:
  "load_data decimal_float (Inr example_csv) = ([], Inr example_loaded) \<and>
   (3::nat) < length example_csv \<and> (4::nat) < length example_csv \<and>
   rename_label (fst (example_csv ! 3)) \<in> set pct_columns \<and>
   rename_label (fst (example_csv ! 4)) \<in> set pct_columns \<and>
   snd (example_csv ! 3) = ObjCol [''50.00%'', ''120%''] \<and>
   snd (example_loaded ! 3) = NumCol [1/2, 6/5] \<and>
   \<not> dtype_is_object (snd (example_csv ! 4)) \<and>
   snd (example_loaded ! 4) = snd (example_csv ! 4)"
proof -
  have h: "load_data decimal_float (Inr example_csv) = ([], Inr example_loaded)"
    by (rule load_example)
  have i3: "(3::nat) < length example_csv" and i4: "(4::nat) < length example_csv"
    by (simp_all add: example_csv_def)
  have p3: "rename_label (fst (example_csv ! 3)) \<in> set pct_columns"
    and p4: "rename_label (fst (example_csv ! 4)) \<in> set pct_columns"
    by (simp_all add: example_csv_def rename_label_cases pct_columns_def)
  have o3: "snd (example_csv ! 3) = ObjCol [''50.00%'', ''120%'']"
    and o4: "\<not> dtype_is_object (snd (example_csv ! 4))"
    by (simp_all add: example_csv_def)
  have l3: "snd (example_loaded ! 3) = NumCol [1/2, 6/5]"
    by (simp add: example_loaded_def)
  from load_data_percent_columns[OF h i4 p4] o4
  have "snd (example_loaded ! 4) = snd (example_csv ! 4)" by simp
  with load_data_percent_columns[OF h i3 p3] h i3 i4 p3 p4 o3 o4 l3 show ?thesis by simp
qed

text \<open>
  C1 as stated fails on a text with a percent sign that is not the trailing one: the file
  value \<^verbatim>\<open>50%%\<close> is loaded as the ratio 0.5, while stripping one trailing percent sign
  leaves \<^verbatim>\<open>50%\<close>, which is no number.
\<close>

theorem percent_not_only_trailing:
  "load_data decimal_float (Inr [(''Target Hit %'', ObjCol [''50%%''])]) =
     ([], Inr [(''Target_Hit_Pct'', NumCol [1/2])]) \<and>
   percent_to_ratio decimal_float [''50%%''] = Inr [1/2] \<and>
   spec_percent_to_ratio decimal_float [''50%%''] = Inl ValueError"
  by (simp add: load_defs spec_percent_to_ratio_def spec_strip_trailing_percent_def)

text \<open>
  C2 (as amended). When the file is missing, \<^verbatim>\<open>load_data\<close> shows its error message and
  returns the empty frame, on which the script stops. When the read fails in another way,
  the exception leaves \<^verbatim>\<open>load_data\<close> and ends the run, with no message of the script.
  In both cases the script does not go on: whenever it goes on to the filter and the
  figures, the file was read and the frame is not empty.
\<close>

theorem script_start_read_failure:
  "script_start to_float (Inl e) =
     (if e = FileNotFoundError then ([not_found_message], Stopped) else ([], Uncaught e)) \<and>
   (\<forall>msgs df. script_start to_float csv = (msgs, Continues df) \<longrightarrow>
      (\<exists>raw. csv = Inr raw \<and> load_data to_float csv = (msgs, Inr df)) \<and> \<not> df_empty df)"
proof -
  have a: "script_start to_float (Inl e) =
     (if e = FileNotFoundError then ([not_found_message], Stopped) else ([], Uncaught e))"
    by (simp add: script_start_def load_data_def df_empty_def)
  have b: "(\<exists>raw. csv = Inr raw \<and> load_data to_float csv = (msgs, Inr df)) \<and> \<not> df_empty df"
    if c: "script_start to_float csv = (msgs, Continues df)" for msgs df
  proof (cases csv)
    case (Inl e')
    with c a[of ] show ?thesis
      by (simp add: script_start_def load_data_def df_empty_def split: if_splits)
  next
    case (Inr raw)
    with c show ?thesis
      by (auto simp: script_start_def split: prod.splits sum.splits if_splits)
  qed
  from a b show ?thesis by blast
qed

theorem script_start_read_failure_witness:
  "script_start decimal_float (Inr example_csv) = ([], Continues example_loaded) \<and>
   load_data decimal_float (Inr example_csv) = ([], Inr example_loaded) \<and>
   \<not> df_empty example_loaded \<and>
   script_start decimal_float (Inl FileNotFoundError) = ([not_found_message], Stopped)"
proof -
  have e: "\<not> df_empty example_loaded"
    by (simp add: df_empty_def nrows_def example_loaded_def)
  have h: "script_start decimal_float (Inr example_csv) = ([], Continues example_loaded)"
    using e by (simp add: script_start_def load_example)
  from script_start_read_failure[of decimal_float FileNotFoundError "Inr example_csv"] h e
  show ?thesis by (simp add: load_example)
qed

text \<open>
  C2 as stated fails on a file that is there and cannot be read: \<^verbatim>\<open>load_data\<close> shows no
  message and returns no frame, the PermissionError of \<^verbatim>\<open>read_csv\<close> leaves it uncaught.
\<close>

theorem unreadable_file_no_message:
  "load_data decimal_float (Inl PermissionError) = ([], Inl PermissionError) \<and>
   script_start decimal_float (Inl PermissionError) = ([], Uncaught PermissionError)"
  by (simp add: load_data_def script_start_def)




section \<open>Properties of the filter and of the figures\<close>

subsection \<open>Auxiliary facts\<close>

lemmas row_defs = mk_row_def mk_int64_row_def salesmen_rank_def sort_values_def top_5_def
  bottom_5_def head_def tail_def df_support_def df_filtered_def isin_def total_sales_def
  series_sum_def total_salesmen_def target_achieved_count_def

lemma sort_values_mset: "mset (sort_values by asc dff) = mset dff"
  by (simp add: sort_values_def)

lemma sort_values_set: "set (sort_values by asc dff) = set dff"
  by (simp add: sort_values_def)

lemma sort_values_length: "length (sort_values by asc dff) = length dff"
  by (simp add: sort_values_def)

lemma sort_values_ascending: "sorted (map by (sort_values by True dff))"
  by (simp add: sort_values_def)

lemma sort_values_descending: "sorted_wrt (\<lambda>a b. by b \<le> by a) (sort_values by False dff)"
proof -
  have "sorted (map (\<lambda>r. - by r) (sort_key (\<lambda>r. - by r) dff))" by (rule sorted_sort_key)
  then show ?thesis by (simp add: sort_values_def sorted_map)
qed

lemma sorted_wrt_split:
  assumes "sorted_wrt P xs" "a \<in> set (take k xs)" "b \<in> set (drop k xs)"
  shows "P a b"
proof -
  from assms(1) have "sorted_wrt P (take k xs @ drop k xs)" by simp
  then show ?thesis using assms(2,3) unfolding sorted_wrt_append by blast
qed

lemma in_take_or_drop: "r \<in> set xs \<Longrightarrow> r \<in> set (take k xs) \<or> r \<in> set (drop k xs)"
  by (metis Un_iff append_take_drop_id set_append)

lemma salesmen_rank_distinct:
  assumes "distinct (map idx dff)"
  shows "distinct (map idx (salesmen_rank dff))"
proof -
  have "mset (map idx (salesmen_rank dff)) = mset (map idx dff)"
    by (simp add: salesmen_rank_def sort_values_mset)
  with assms show ?thesis by (metis mset_eq_imp_distinct_iff)
qed







lemma df_filtered_no_selection: "df_filtered [] df = []"
  by (simp add: df_filtered_def isin_def)

lemma df_filtered_distinct: "distinct (map idx df) \<Longrightarrow> distinct (map idx (df_filtered sel df))"
  by (simp add: df_filtered_def distinct_map_filter)

subsection \<open>The claims\<close>

text \<open>
  C3. With the sentinel in the selection the filter is off and the filtered table is the
  table itself. Without it the filtered table is the rows whose region is selected, so
  every one of its rows has its region in the selection. In both cases the rows kept are in
  the order of the table.
\<close>

theorem df_filtered_region:
  "(''All Regions'' \<in> set selected_states \<longrightarrow> df_filtered selected_states df = df) \<and>
   (''All Regions'' \<notin> set selected_states \<longrightarrow>
      (\<forall>r \<in> set (df_filtered selected_states df). Region r \<in> set selected_states) \<and>
      (\<forall>r. r \<in> set (df_filtered selected_states df) \<longleftrightarrow>
            r \<in> set df \<and> Region r \<in> set selected_states)) \<and>
   subseq (df_filtered selected_states df) df"
proof (cases "''All Regions'' \<in> set selected_states")
  case True
  then have "df_filtered selected_states df = df" by (simp add: df_filtered_def)
  with True show ?thesis by simp
next
  case False
  then have f: "df_filtered selected_states df = filter (isin selected_states) df"
    by (simp add: df_filtered_def)
  have "r \<in> set (filter (isin selected_states) df) \<longleftrightarrow>
          r \<in> set df \<and> Region r \<in> set selected_states" for r
    by (simp add: isin_def)
  moreover have "subseq (filter (isin selected_states) df) df" by simp
  ultimately show ?thesis using False f by simp
qed

theorem df_filtered_region_witness:
  "''All Regions'' \<in> set [''All Regions''] \<and>
   df_filtered [''All Regions''] example_table = example_table \<and>
   ''All Regions'' \<notin> set [''North'', ''East''] \<and>
   map idx (df_filtered [''North'', ''East''] example_table) = [0, 2, 3] \<and>
   map Region (df_filtered [''North'', ''East''] example_table) = [''North'', ''North'', ''East'']"
proof -
  have a: "''All Regions'' \<in> set [''All Regions'']" by simp
  have b: "''All Regions'' \<notin> set [''North'', ''East'']" by simp
  from df_filtered_region[of "[''All Regions'']" example_table] a
  have c: "df_filtered [''All Regions''] example_table = example_table" by blast
  have d: "map idx (df_filtered [''North'', ''East''] example_table) = [0, 2, 3]"
    "map Region (df_filtered [''North'', ''East''] example_table) = [''North'', ''North'', ''East'']"
    by (simp_all add: example_table_def row_defs)
  from a b c d show ?thesis by simp
qed

text \<open>
  C10. With nothing selected no row passes the filter, and every figure of the dashboard
  is the figure of the empty table.
\<close>

theorem df_filtered_empty_selection:
  "df_filtered [] df = [] \<and>
   total_sales (df_filtered [] df) = 0 \<and>
   total_salesmen (df_filtered [] df) = 0 \<and>
   target_achieved_count (df_filtered [] df) = 0 \<and>
   salesmen_rank (df_filtered [] df) = [] \<and>
   top_5 (df_filtered [] df) = [] \<and>
   bottom_5 (df_filtered [] df) = [] \<and>
   df_support target_threshold (df_filtered [] df) = []"
  by (simp add: df_filtered_no_selection total_sales_def series_sum_def total_salesmen_def
      target_achieved_count_def salesmen_rank_def top_5_def bottom_5_def df_support_def
      sort_values_def head_def tail_def)

text \<open>
  C4. The support list holds exactly the rows of the filtered table whose hit ratio is
  strictly below the threshold, each as often as the table holds it, in ascending order of
  the hit ratio.
\<close>

theorem df_support_membership_order:
  "(\<forall>r. r \<in> set (df_support target_threshold dff) \<longleftrightarrow>
         r \<in> set dff \<and> Target_Hit_Pct r < target_threshold) \<and>
   mset (df_support target_threshold dff) =
     filter_mset (\<lambda>r. Target_Hit_Pct r < target_threshold) (mset dff) \<and>
   sorted (map Target_Hit_Pct (df_support target_threshold dff))"
proof -
  let ?below = "filter (\<lambda>r. Target_Hit_Pct r < target_threshold) dff"
  have d: "df_support target_threshold dff = sort_values Target_Hit_Pct True ?below"
    by (simp add: df_support_def)
  have "set (df_support target_threshold dff) = set ?below"
    unfolding d by (rule sort_values_set)
  then have m: "r \<in> set (df_support target_threshold dff) \<longleftrightarrow>
                  r \<in> set dff \<and> Target_Hit_Pct r < target_threshold" for r
    by simp
  have "mset (df_support target_threshold dff) = mset ?below"
    unfolding d by (rule sort_values_mset)
  then have c: "mset (df_support target_threshold dff) =
                  filter_mset (\<lambda>r. Target_Hit_Pct r < target_threshold) (mset dff)"
    by simp
  have o: "sorted (map Target_Hit_Pct (df_support target_threshold dff))"
    unfolding d by (rule sort_values_ascending)
  from m c o show ?thesis by simp
qed

theorem df_support_membership_order_witness:
  "map idx (df_support (3/5) example_table) = [2, 0] \<and>
   mk_row 0 ''E1'' ''North'' 1000 (1/2) \<in> set (df_support (3/5) example_table) \<and>
   mk_row 0 ''E1'' ''North'' 1000 (1/2) \<notin> set (df_support (2/5) example_table) \<and>
   sorted (map Target_Hit_Pct (df_support (3/5) example_table))"
proof -
  have a: "map idx (df_support (3/5) example_table) = [2, 0]"
    by (simp add: example_table_def row_defs)
  have i: "mk_row 0 ''E1'' ''North'' 1000 (1/2) \<in> set example_table"
    by (simp add: example_table_def)
  have h: "Target_Hit_Pct (mk_row 0 ''E1'' ''North'' 1000 (1/2)) = 1/2"
    by (simp add: mk_row_def)
  from df_support_membership_order[of "3/5" example_table] i h
  have b: "mk_row 0 ''E1'' ''North'' 1000 (1/2) \<in> set (df_support (3/5) example_table)"
    and d: "sorted (map Target_Hit_Pct (df_support (3/5) example_table))"
    by simp_all
  from df_support_membership_order[of "2/5" example_table] i h
  have c: "mk_row 0 ''E1'' ''North'' 1000 (1/2) \<notin> set (df_support (2/5) example_table)"
    by simp
  from a b c d show ?thesis by (intro conjI)
qed



text \<open>
  C6. For every filtered table the ranking is the table sorted by sales, largest first:
  the same rows, in descending order of their sales. The top five are its first five rows
  and the bottom five its last five (all rows, when there are fewer than five); no row
  outside the top five sells more than a row of the top five and no row outside the bottom
  five sells less than a row of the bottom five. For a filtered table of at least ten rows
  both have five rows, and no row is in both: rows are told apart by their index labels,
  which are distinct as \<^verbatim>\<open>read_csv\<close> gives them and as the filter keeps them.
\<close>

theorem top_5_bottom_5:
  "salesmen_rank dff = sort_values (\<lambda>r. number_value (Total_Sales r)) False dff \<and>
   mset (salesmen_rank dff) = mset dff \<and>
   sorted_wrt (\<lambda>a b. number_value (Total_Sales b) \<le> number_value (Total_Sales a))
     (salesmen_rank dff) \<and>
   top_5 dff = take 5 (salesmen_rank dff) \<and>
   bottom_5 dff = drop (length dff - 5) (salesmen_rank dff) \<and>
   length (top_5 dff) = min 5 (length dff) \<and>
   length (bottom_5 dff) = min 5 (length dff) \<and>
   (\<forall>t \<in> set (top_5 dff). \<forall>r \<in> set dff.
      idx r \<notin> idx ` set (top_5 dff) \<longrightarrow>
        number_value (Total_Sales r) \<le> number_value (Total_Sales t)) \<and>
   (\<forall>b \<in> set (bottom_5 dff). \<forall>r \<in> set dff.
      idx r \<notin> idx ` set (bottom_5 dff) \<longrightarrow>
        number_value (Total_Sales b) \<le> number_value (Total_Sales r)) \<and>
   (10 \<le> length dff \<longrightarrow>
      length (top_5 dff) = 5 \<and> length (bottom_5 dff) = 5 \<and>
      (distinct (map idx dff) \<longrightarrow> idx ` set (top_5 dff) \<inter> idx ` set (bottom_5 dff) = {}))"
proof -
  let ?rank = "salesmen_rank dff"
  let ?n = "length dff"
  let ?v = "\<lambda>r. number_value (Total_Sales r)"
  have len: "length ?rank = ?n" by (simp add: salesmen_rank_def sort_values_length)
  have st: "set ?rank = set dff" by (simp add: salesmen_rank_def sort_values_set)
  have ms: "mset ?rank = mset dff" by (simp add: salesmen_rank_def sort_values_mset)
  have so: "sorted_wrt (\<lambda>a b. ?v b \<le> ?v a) ?rank"
    unfolding salesmen_rank_def by (rule sort_values_descending)
  have top: "top_5 dff = take 5 ?rank" by (simp add: top_5_def head_def)
  have bot: "bottom_5 dff = drop (?n - 5) ?rank" by (simp add: bottom_5_def tail_def len)
  have lt: "length (top_5 dff) = min 5 ?n" using len by (simp add: top min.commute)
  have lb: "length (bottom_5 dff) = min 5 ?n" using len by (simp add: bot)
  have ex1: "?v r \<le> ?v t"
    if "t \<in> set (top_5 dff)" "r \<in> set dff" "idx r \<notin> idx ` set (top_5 dff)" for t r
  proof -
    from that(3) have "r \<notin> set (take 5 ?rank)" by (auto simp: top)
    with that(2) st in_take_or_drop[of r ?rank 5] have "r \<in> set (drop 5 ?rank)" by auto
    with sorted_wrt_split[OF so, of t 5 r] that(1) show ?thesis by (simp add: top)
  qed
  have ex2: "?v b \<le> ?v r"
    if "b \<in> set (bottom_5 dff)" "r \<in> set dff" "idx r \<notin> idx ` set (bottom_5 dff)" for b r
  proof -
    from that(3) have "r \<notin> set (drop (?n - 5) ?rank)" by (auto simp: bot)
    with that(2) st in_take_or_drop[of r ?rank "?n - 5"]
    have "r \<in> set (take (?n - 5) ?rank)" by auto
    with sorted_wrt_split[OF so, of r "?n - 5" b] that(1) show ?thesis by (simp add: bot)
  qed
  have five: "length (top_5 dff) = 5 \<and> length (bottom_5 dff) = 5" if "10 \<le> ?n"
    using that lt lb by simp
  have dj: "idx ` set (top_5 dff) \<inter> idx ` set (bottom_5 dff) = {}"
    if n: "10 \<le> ?n" and d: "distinct (map idx dff)"
  proof -
    have di: "distinct (map idx ?rank)" using d by (rule salesmen_rank_distinct)
    have "set (take 5 (map idx ?rank)) \<inter> set (drop (?n - 5) (map idx ?rank)) = {}"
      using di n by (intro set_take_disj_set_drop_if_distinct) simp_all
    then show ?thesis by (simp add: top bot take_map drop_map)
  qed
  have u: "salesmen_rank dff = sort_values ?v False dff" by (simp add: salesmen_rank_def)
  from u ms so top bot lt lb ex1 ex2 five dj show ?thesis by (intro conjI ballI impI) auto
qed

theorem top_5_bottom_5_witness:
  "distinct (map idx example_ten) \<and> 10 \<le> length example_ten \<and>
   map idx (salesmen_rank example_ten) = [3, 6, 9, 1, 4, 7, 2, 5, 8, 0] \<and>
   map idx (top_5 example_ten) = [3, 6, 9, 1, 4] \<and>
   map idx (bottom_5 example_ten) = [7, 2, 5, 8, 0] \<and>
   length (top_5 example_ten) = 5 \<and> length (bottom_5 example_ten) = 5 \<and>
   idx ` set (top_5 example_ten) \<inter> idx ` set (bottom_5 example_ten) = {} \<and>
   map idx (top_5 (df_filtered [''North''] example_ten)) = [1, 8, 0] \<and>
   map idx (bottom_5 (df_filtered [''North''] example_ten)) = [1, 8, 0] \<and>
   length (top_5 (df_filtered [''North''] example_ten)) =
     min 5 (length (df_filtered [''North''] example_ten))"
proof -
  have h1: "distinct (map idx example_ten)" and h2: "10 \<le> length example_ten"
    by (simp_all add: example_ten_def mk_row_def)
  have r: "map idx (salesmen_rank example_ten) = [3, 6, 9, 1, 4, 7, 2, 5, 8, 0]"
    and t: "map idx (top_5 example_ten) = [3, 6, 9, 1, 4]"
    and b: "map idx (bottom_5 example_ten) = [7, 2, 5, 8, 0]"
    by (simp_all add: example_ten_def row_defs)
  have s: "map idx (top_5 (df_filtered [''North''] example_ten)) = [1, 8, 0]"
    "map idx (bottom_5 (df_filtered [''North''] example_ten)) = [1, 8, 0]"
    by (simp_all add: example_ten_def row_defs)
  from top_5_bottom_5[of example_ten] h1 h2
  have f: "length (top_5 example_ten) = 5" "length (bottom_5 example_ten) = 5"
    "idx ` set (top_5 example_ten) \<inter> idx ` set (bottom_5 example_ten) = {}"
    by blast+
  from top_5_bottom_5[of "df_filtered [''North''] example_ten"]
  have m: "length (top_5 (df_filtered [''North''] example_ten)) =
     min 5 (length (df_filtered [''North''] example_ten))"
    by blast
  from h1 h2 r t b f s m show ?thesis by (intro conjI)
qed

end
